theory Spec2Isabelle
  imports Complex_Main "HOL-Library.Multiset"
begin

section \<open>Mergeable histograms of the histogram notebook\<close>

text \<open>
  The notebook \<^verbatim>\<open>01-histograms.ipynb\<close> defines two mergeable histograms on top of
  numpy: the function \<^verbatim>\<open>add_histos\<close> on pairs \<^verbatim>\<open>(sumw, binning)\<close> as returned by
  \<^verbatim>\<open>np.histogram\<close>, and the class \<^verbatim>\<open>myTH1\<close>. Arrays are one-dimensional and are
  modelled as lists. Array elements (\<^verbatim>\<open>float64\<close> weights, \<^verbatim>\<open>int64\<close> counts) are
  modelled as exact real numbers: rounding, overflow, infinities and NaN are outside the
  model. Every \<^verbatim>\<open>raise\<close> is a value \<open>Inl e\<close> of the result type.
\<close>

subsection \<open>Exceptions\<close>

text \<open>
  The notebook raises \<^verbatim>\<open>ValueError\<close> with and without a message; the numpy calls it
  makes raise \<^verbatim>\<open>ValueError\<close> as well. The message is kept (numpy's messages without
  the shapes they print). \<open>AttributeError\<close> is what Python raises when a field that
  should hold an array or a histogram holds something else; only the model with an
  explicit store can reach it.
\<close>

datatype error = ValueError string | AttributeError

definition inconsistent_binning :: error where
  "inconsistent_binning = ValueError ''The histograms have inconsistent binning''"

definition bind_err :: "error + 'a \<Rightarrow> ('a \<Rightarrow> error + 'b) \<Rightarrow> error + 'b" where
  "bind_err m f = (case m of Inl e \<Rightarrow> Inl e | Inr x \<Rightarrow> f x)"

subsection \<open>The numpy operations the notebook calls\<close>

text \<open>\<^verbatim>\<open>np.zeros(n)\<close>: an array of \<open>n\<close> zeros; a negative size raises.\<close>

definition np_zeros :: "int \<Rightarrow> error + real list" where
  "np_zeros n =
     (if n < 0 then Inl (ValueError ''negative dimensions are not allowed'')
      else Inr (replicate (nat n) 0))"

text \<open>
  \<^verbatim>\<open>a + b\<close> on one-dimensional arrays: element by element when the shapes agree, an
  array of one element is broadcast over the other, any other pair of shapes raises.
\<close>

definition np_add :: "real list \<Rightarrow> real list \<Rightarrow> error + real list" where
  "np_add xs ys =
     (if length xs = length ys then Inr (map2 (+) xs ys)
      else if length xs = 1 then Inr (map (\<lambda>y. hd xs + y) ys)
      else if length ys = 1 then Inr (map (\<lambda>x. x + hd ys) xs)
      else Inl (ValueError ''operands could not be broadcast together''))"

text \<open>
  \<^verbatim>\<open>a += b\<close>: the in-place sum keeps the shape of \<open>a\<close>, so only \<open>b\<close> can be
  broadcast.
\<close>

definition np_iadd :: "real list \<Rightarrow> real list \<Rightarrow> error + real list" where
  "np_iadd xs ys =
     (if length ys = length xs then Inr (map2 (+) xs ys)
      else if length ys = 1 then Inr (map (\<lambda>x. x + hd ys) xs)
      else if length xs = 1 then Inl (ValueError ''non-broadcastable output operand'')
      else Inl (ValueError ''operands could not be broadcast together''))"

text \<open>\<^verbatim>\<open>np.all(a == b)\<close> for arrays of one shape, and \<^verbatim>\<open>np.array_equal(a, b)\<close>.\<close>

definition np_all_eq :: "real list \<Rightarrow> real list \<Rightarrow> bool" where
  "np_all_eq xs ys = list_all (\<lambda>(x, y). x = y) (zip xs ys)"

definition np_array_equal :: "real list \<Rightarrow> real list \<Rightarrow> bool" where
  "np_array_equal xs ys = (length xs = length ys \<and> np_all_eq xs ys)"

text \<open>
  \<^verbatim>\<open>np.histogram(a, bins=edges, weights=w)\<close> with an array of edges. numpy first checks
  that the weights have the shape of the values, then that no edge is greater than its
  successor. Bin \<open>i\<close> is the half-open interval from edge \<open>i\<close> to edge \<open>i + 1\<close>; the last
  bin is closed on the right. A value in no bin is not counted. Without weights every
  value counts 1. There are \<open>length edges - 1\<close> bins (none for fewer than two edges).
\<close>

definition in_bin :: "real list \<Rightarrow> nat \<Rightarrow> real \<Rightarrow> bool" where
  "in_bin edges i v =
     (edges ! i \<le> v \<and>
      (if Suc (Suc i) = length edges then v \<le> edges ! Suc i else v < edges ! Suc i))"

definition bin_content :: "real list \<Rightarrow> (real \<times> real) list \<Rightarrow> nat \<Rightarrow> real" where
  "bin_content edges vws i = sum_list (map snd (filter (\<lambda>vw. in_bin edges i (fst vw)) vws))"

definition np_histogram :: "real list \<Rightarrow> real list \<Rightarrow> real list option \<Rightarrow> error + real list" where
  "np_histogram a edges weights =
     (if (case weights of None \<Rightarrow> False | Some ws \<Rightarrow> length ws \<noteq> length a)
      then Inl (ValueError ''weights should have the same shape as a'')
      else if \<not> successively (\<le>) edges
      then Inl (ValueError ''bins must increase monotonically, when an array'')
      else Inr (map (bin_content edges
                  (zip a (case weights of None \<Rightarrow> replicate (length a) 1 | Some ws \<Rightarrow> ws)))
                [0..<length edges - 1]))"

subsection \<open>\<^verbatim>\<open>add_histos\<close>\<close>

text \<open>
  \<^verbatim>\<open>
  def add_histos(h1, h2):
      h1sumw, h1binning = h1
      h2sumw, h2binning = h2
      if h1binning.shape == h2binning.shape and np.all(h1binning==h2binning):
          return h1sumw+h2sumw, h1binning
      else:
          raise ValueError("The histograms have inconsistent binning")
  \<close>
\<close>

definition add_histos ::
  "real list \<times> real list \<Rightarrow> real list \<times> real list \<Rightarrow> error + (real list \<times> real list)" where
  "add_histos h1 h2 =
     (case h1 of (h1sumw, h1binning) \<Rightarrow>
      case h2 of (h2sumw, h2binning) \<Rightarrow>
        if length h1binning = length h2binning \<and> np_all_eq h1binning h2binning
        then bind_err (np_add h1sumw h2sumw) (\<lambda>s. Inr (s, h1binning))
        else Inl inconsistent_binning)"

subsection \<open>The class \<^verbatim>\<open>myTH1\<close>\<close>

text \<open>
  \<^verbatim>\<open>
  class myTH1:
      def __init__(self, binning):
          self._binning = binning
          self._sumw = np.zeros(binning.size - 1)

      def fill(self, values, weights=None):
          sumw, _ = np.histogram(values, bins=self._binning, weights=weights)
          self._sumw += sumw

      def __add__(self, other):
          if not isinstance(other, myTH1):
              raise ValueError
          if not np.array_equal(other._binning, self._binning):
              raise ValueError("The histograms have inconsistent binning")
          out = myTH1(self._binning)
          out._sumw = self._sumw + other._sumw
          return out
  \<close>
  The fields \<^verbatim>\<open>_binning\<close> and \<^verbatim>\<open>_sumw\<close> are the fields \<open>binning\<close> and \<open>sumw\<close> of a
  record; a method that mutates \<^verbatim>\<open>self\<close> returns the updated record. The right operand
  of \<^verbatim>\<open>+\<close> is any Python object.
\<close>

record myTH1 =
  binning :: "real list"
  sumw :: "real list"

datatype pyobj = PyTH1 myTH1 | PyOther

definition myTH1_init :: "real list \<Rightarrow> error + myTH1" where
  "myTH1_init b =
     bind_err (np_zeros (int (length b) - 1)) (\<lambda>z. Inr \<lparr>binning = b, sumw = z\<rparr>)"

definition myTH1_fill :: "myTH1 \<Rightarrow> real list \<Rightarrow> real list option \<Rightarrow> error + myTH1" where
  "myTH1_fill self vals weights =
     bind_err (np_histogram vals (binning self) weights) (\<lambda>s.
     bind_err (np_iadd (sumw self) s) (\<lambda>s'. Inr (self\<lparr>sumw := s'\<rparr>)))"

definition myTH1_add :: "myTH1 \<Rightarrow> pyobj \<Rightarrow> error + myTH1" where
  "myTH1_add self other =
     (case other of
        PyOther \<Rightarrow> Inl (ValueError [])
      | PyTH1 oth \<Rightarrow>
          if \<not> np_array_equal (binning oth) (binning self) then Inl inconsistent_binning
          else bind_err (myTH1_init (binning self)) (\<lambda>out.
               bind_err (np_add (sumw self) (sumw oth)) (\<lambda>s. Inr (out\<lparr>sumw := s\<rparr>))))"

subsection \<open>Histograms a program can build\<close>

text \<open>
  A \<^verbatim>\<open>myTH1\<close> object comes from the constructor, and is then changed by \<^verbatim>\<open>fill\<close> or
  produced by \<^verbatim>\<open>+\<close> from two such objects. \<open>th1_ok\<close> is the shape that relates the two
  fields: for \<open>B + 1\<close> edges there are \<open>B\<close> cells.
\<close>

inductive reachable :: "myTH1 \<Rightarrow> bool" where
  init: "myTH1_init b = Inr h \<Longrightarrow> reachable h"
| fill: "reachable h \<Longrightarrow> myTH1_fill h vals weights = Inr h' \<Longrightarrow> reachable h'"
| add: "reachable h1 \<Longrightarrow> reachable h2 \<Longrightarrow> myTH1_add h1 (PyTH1 h2) = Inr h \<Longrightarrow> reachable h"

definition th1_ok :: "myTH1 \<Rightarrow> bool" where
  "th1_ok h = (int (length (sumw h)) = int (length (binning h)) - 1)"

subsection \<open>Filling events and merging partial histograms\<close>

text \<open>
  An event is a pair of a value and a weight. \<open>fill_events True\<close> is the call
  \<^verbatim>\<open>h.fill(values, weights=weights)\<close> on the two parallel arrays of a list of events,
  \<open>fill_events False\<close> the call \<^verbatim>\<open>h.fill(values)\<close>, where every event counts 1.
  \<open>fill_each\<close> makes one call of \<^verbatim>\<open>fill\<close> per event, in the order of the list.
\<close>

definition fill_events :: "bool \<Rightarrow> myTH1 \<Rightarrow> (real \<times> real) list \<Rightarrow> error + myTH1" where
  "fill_events weighted h evs =
     myTH1_fill h (map fst evs) (if weighted then Some (map snd evs) else None)"


text \<open>
  The events as \<^verbatim>\<open>np.histogram\<close> counts them: with their weights, or each with
  weight 1 when no weights are passed.
\<close>

definition counted :: "bool \<Rightarrow> (real \<times> real) list \<Rightarrow> (real \<times> real) list" where
  "counted weighted evs = (if weighted then evs else map (\<lambda>e. (fst e, 1)) evs)"

text \<open>
  The map-reduce pattern of the notebook (\<^verbatim>\<open>h1 = myTH1(binning); h1.fill(vals); ...;
  h = h1 + h2\<close>) for any number of chunks: a fresh histogram is filled per chunk, and the
  partial histograms are added one after the other to a fresh, empty histogram.
  \<open>fill_new\<close> is \<^verbatim>\<open>h = myTH1(b); h.fill(vals, weights)\<close>.
\<close>

definition fill_new :: "real list \<Rightarrow> real list \<Rightarrow> real list option \<Rightarrow> error + myTH1" where
  "fill_new b vals weights = bind_err (myTH1_init b) (\<lambda>h. myTH1_fill h vals weights)"

definition fresh_fill :: "bool \<Rightarrow> real list \<Rightarrow> (real \<times> real) list \<Rightarrow> error + myTH1" where
  "fresh_fill weighted b evs = bind_err (myTH1_init b) (\<lambda>h. fill_events weighted h evs)"





subsection \<open>\<^verbatim>\<open>myTH1\<close> objects in a store\<close>

text \<open>
  Python objects are references. A store is the list of all objects allocated so far, a
  reference is an index into it, and an allocation appends. A \<^verbatim>\<open>myTH1\<close> object holds
  the references of its two arrays. \<^verbatim>\<open>__init__\<close> stores the reference of the binning it
  is given and allocates the array of zeros; \<^verbatim>\<open>fill\<close> overwrites the cell array in
  place (\<^verbatim>\<open>+=\<close>); \<^verbatim>\<open>__add__\<close> builds a new object on the binning reference of
  \<^verbatim>\<open>self\<close> and then points its \<^verbatim>\<open>_sumw\<close> to the newly allocated sum. A new
  object is entered in the store once \<^verbatim>\<open>__init__\<close> has set its two fields.
\<close>

datatype obj = NdArray "real list" | MyTH1 nat nat | Other

type_synonym store = "obj list"

definition alloc :: "store \<Rightarrow> obj \<Rightarrow> store \<times> nat" where
  "alloc H x = (H @ [x], length H)"

definition lookup :: "store \<Rightarrow> nat \<Rightarrow> obj option" where
  "lookup H r = (if r < length H then Some (H ! r) else None)"

definition array_at :: "store \<Rightarrow> nat \<Rightarrow> error + real list" where
  "array_at H r = (case lookup H r of Some (NdArray xs) \<Rightarrow> Inr xs | _ \<Rightarrow> Inl AttributeError)"

definition set_sumw :: "store \<Rightarrow> nat \<Rightarrow> nat \<Rightarrow> error + store" where
  "set_sumw H r s =
     (case lookup H r of Some (MyTH1 b _) \<Rightarrow> Inr (H[r := MyTH1 b s]) | _ \<Rightarrow> Inl AttributeError)"

definition new_myTH1 :: "store \<Rightarrow> nat \<Rightarrow> error + (store \<times> nat)" where
  "new_myTH1 H b =
     bind_err (array_at H b) (\<lambda>edges.
     bind_err (np_zeros (int (length edges) - 1)) (\<lambda>z.
       case alloc H (NdArray z) of (H1, zr) \<Rightarrow> Inr (alloc H1 (MyTH1 b zr))))"

definition fill_store :: "store \<Rightarrow> nat \<Rightarrow> real list \<Rightarrow> real list option \<Rightarrow> error + store" where
  "fill_store H self vals weights =
     (case lookup H self of
        Some (MyTH1 b s) \<Rightarrow>
          bind_err (array_at H b) (\<lambda>edges.
          bind_err (np_histogram vals edges weights) (\<lambda>n.
          bind_err (array_at H s) (\<lambda>cells.
          bind_err (np_iadd cells n) (\<lambda>cells'. Inr (H[s := NdArray cells'])))))
      | _ \<Rightarrow> Inl AttributeError)"

definition add_store :: "store \<Rightarrow> nat \<Rightarrow> nat \<Rightarrow> error + (store \<times> nat)" where
  "add_store H self other =
     (case lookup H self of
        Some (MyTH1 sb ss) \<Rightarrow>
          (case lookup H other of
             Some (MyTH1 ob os) \<Rightarrow>
               bind_err (array_at H ob) (\<lambda>oedges.
               bind_err (array_at H sb) (\<lambda>sedges.
                 if \<not> np_array_equal oedges sedges then Inl inconsistent_binning
                 else
                   bind_err (new_myTH1 H sb) (\<lambda>(H1, out).
                   bind_err (array_at H1 ss) (\<lambda>xs.
                   bind_err (array_at H1 os) (\<lambda>ys.
                   bind_err (np_add xs ys) (\<lambda>s.
                     case alloc H1 (NdArray s) of (H2, r) \<Rightarrow>
                       bind_err (set_sumw H2 out r) (\<lambda>H3. Inr (H3, out))))))))
           | _ \<Rightarrow> Inl (ValueError []))
      | _ \<Rightarrow> Inl AttributeError)"

text \<open>The histogram a reference stands for: the contents of its two arrays.\<close>

definition th1_at :: "store \<Rightarrow> nat \<Rightarrow> myTH1 option" where
  "th1_at H r =
     (case lookup H r of
        Some (MyTH1 b s) \<Rightarrow>
          (case (array_at H b, array_at H s) of
             (Inr edges, Inr cells) \<Rightarrow> Some \<lparr>binning = edges, sumw = cells\<rparr>
           | _ \<Rightarrow> None)
      | _ \<Rightarrow> None)"

section \<open>The accumulator design around the notebooks\<close>

text \<open>
  The notebooks call the histogram class and the executors of the coffea library
  (\<^verbatim>\<open>hist.Hist\<close>, \<^verbatim>\<open>hist.Cat\<close>, \<^verbatim>\<open>processor.run_uproot_job\<close>); the library's code is
  not part of the repository. The two parts of it below follow the specification of the
  design, sections 3, 4.1, 4.3, 4.4, 7 and 9.
\<close>

subsection \<open>A histogram over a growable categorical axis\<close>

text \<open>
  Modelled from the spec: the categorical axis, whose code (coffea's \<^verbatim>\<open>hist.Cat\<close>) is
  not in the repository. It is an ordered sequence of known labels, kept as an append-only
  label table with stable integer indices, together with the policy that allows or forbids
  growth; the histogram owns the axis and one cell per label.
\<close>

datatype axis_error = UnknownLabel string

record cat_hist =
  labels :: "string list"
  growable :: bool
  cells :: "real list"

text \<open>
  Modelled from the spec: the identity value of the accumulator, a histogram constructed
  with no label and no cell.
\<close>

definition cat_identity :: "bool \<Rightarrow> cat_hist" where
  "cat_identity g = \<lparr>labels = [], growable = g, cells = []\<rparr>"

text \<open>Modelled from the spec: the lookup of a label in the label table.\<close>

fun label_index :: "string list \<Rightarrow> string \<Rightarrow> nat option" where
  "label_index [] l = None"
| "label_index (x # xs) l = (if x = l then Some 0 else map_option Suc (label_index xs l))"

text \<open>
  Modelled from the spec: \<^verbatim>\<open>bin_index\<close> of a categorical axis: lookup by label,
  inserting a new bin if the policy allows growth, else failing with \<^verbatim>\<open>UnknownLabel\<close>.
  Adding a label grows the cell array of the histogram in place, by a cell of weight 0 at
  the end.
\<close>

definition bin_index :: "cat_hist \<Rightarrow> string \<Rightarrow> axis_error + (cat_hist \<times> nat)" where
  "bin_index h l =
     (case label_index (labels h) l of
        Some i \<Rightarrow> Inr (h, i)
      | None \<Rightarrow>
          if growable h
          then Inr (h\<lparr>labels := labels h @ [l], cells := cells h @ [0]\<rparr>, length (labels h))
          else Inl (UnknownLabel l))"

text \<open>
  Modelled from the spec: \<^verbatim>\<open>fill\<close> for one event: it computes the bin index of the
  label and accumulates the weight into that cell.
\<close>

definition cat_fill :: "cat_hist \<Rightarrow> string \<Rightarrow> real \<Rightarrow> axis_error + cat_hist" where
  "cat_fill h l w =
     (case bin_index h l of
        Inl e \<Rightarrow> Inl e
      | Inr (h', i) \<Rightarrow> Inr (h'\<lparr>cells := (cells h')[i := cells h' ! i + w]\<rparr>))"

text \<open>Modelled from the spec: filling a sequence of labelled, weighted events in order.\<close>

fun cat_fill_all :: "cat_hist \<Rightarrow> (string \<times> real) list \<Rightarrow> axis_error + cat_hist" where
  "cat_fill_all h [] = Inr h"
| "cat_fill_all h ((l, w) # evs) =
     (case cat_fill h l w of Inl e \<Rightarrow> Inl e | Inr h' \<Rightarrow> cat_fill_all h' evs)"

text \<open>
  Modelled from the spec: \<^verbatim>\<open>identifiers()\<close>, the bins of the axis in their order, and
  \<^verbatim>\<open>values()\<close>, the cells keyed by their bin identifier.
\<close>

definition identifiers :: "cat_hist \<Rightarrow> string list" where
  "identifiers h = labels h"

definition cat_values :: "cat_hist \<Rightarrow> (string \<times> real) list" where
  "cat_values h = zip (labels h) (cells h)"

subsection \<open>The executor\<close>

text \<open>
  Modelled from the spec: a task, a chunk descriptor with the function that processes
  the chunk into an accumulator or raises; and the record of a failed task, which wraps
  the error of the task with the number of the task (counted from 1). Their code (coffea's
  executors) is not in the repository.
\<close>

record ('c, 'e, 'a) task =
  chunk :: 'c
  func :: "'c \<Rightarrow> 'e + 'a"

datatype 'e task_failure = TaskFailure nat 'e

text \<open>
  Modelled from the spec: the sequential executor. Given the tasks in order and the
  starting identity, it runs each task's function and folds the results with \<open>merge\<close>.
  When a task raises, fail-fast mode aborts the run with that first error; best-effort
  mode records the failure and continues. The result is the merged accumulator together
  with the recorded failures.
\<close>

fun reduce_tasks ::
  "bool \<Rightarrow> ('a \<Rightarrow> 'a \<Rightarrow> 'a) \<Rightarrow> nat \<Rightarrow> 'a \<Rightarrow> 'e task_failure list \<Rightarrow> ('c, 'e, 'a) task list
     \<Rightarrow> 'e task_failure + ('a \<times> 'e task_failure list)" where
  "reduce_tasks fail_fast merge i acc fs [] = Inr (acc, fs)"
| "reduce_tasks fail_fast merge i acc fs (t # ts) =
     (case func t (chunk t) of
        Inr r \<Rightarrow> reduce_tasks fail_fast merge (Suc i) (merge acc r) fs ts
      | Inl e \<Rightarrow>
          if fail_fast then Inl (TaskFailure i e)
          else reduce_tasks fail_fast merge (Suc i) acc (fs @ [TaskFailure i e]) ts)"

definition run_executor ::
  "bool \<Rightarrow> 'a \<Rightarrow> ('a \<Rightarrow> 'a \<Rightarrow> 'a) \<Rightarrow> ('c, 'e, 'a) task list
     \<Rightarrow> 'e task_failure + ('a \<times> 'e task_failure list)" where
  "run_executor fail_fast identity merge tasks = reduce_tasks fail_fast merge 1 identity [] tasks"

text \<open>
  What a run is expected to return, read off the tasks themselves: the outputs of the tasks
  that return, in order, and one recorded failure per task that raises.
\<close>

fun task_outputs :: "('c, 'e, 'a) task list \<Rightarrow> 'a list" where
  "task_outputs [] = []"
| "task_outputs (t # ts) =
     (case func t (chunk t) of Inr r \<Rightarrow> r # task_outputs ts | Inl e \<Rightarrow> task_outputs ts)"

fun task_failures :: "nat \<Rightarrow> ('c, 'e, 'a) task list \<Rightarrow> 'e task_failure list" where
  "task_failures i [] = []"
| "task_failures i (t # ts) =
     (case func t (chunk t) of
        Inr r \<Rightarrow> task_failures (Suc i) ts
      | Inl e \<Rightarrow> TaskFailure i e # task_failures (Suc i) ts)"

section \<open>Properties of the notebook's histograms\<close>

subsection \<open>The error monad\<close>

lemma bind_err_Inr [simp]: "bind_err (Inr x) f = f x"
  by (simp add: bind_err_def)

lemma bind_err_Inl [simp]: "bind_err (Inl e) f = Inl e"
  by (simp add: bind_err_def)


lemma bind_err_eq_Inr: "bind_err m f = Inr y \<longleftrightarrow> (\<exists>x. m = Inr x \<and> f x = Inr y)"
  by (cases m) simp_all

subsection \<open>Comparing and adding arrays\<close>

lemma np_all_eq_iff: "length xs = length ys \<Longrightarrow> np_all_eq xs ys \<longleftrightarrow> xs = ys"
  unfolding np_all_eq_def
  by (induction xs ys rule: list_induct2) auto

lemma np_array_equal_iff: "np_array_equal xs ys \<longleftrightarrow> xs = ys"
  using np_all_eq_iff by (auto simp: np_array_equal_def)

lemma map2_add_comm: "map2 (+) xs ys = map2 (+) ys (xs::real list)"
  by (induction xs ys rule: list_induct2') auto










subsection \<open>Merging histograms over one binning\<close>

lemma myTH1_init_eq:
  "myTH1_init b =
     (if b = [] then Inl (ValueError ''negative dimensions are not allowed'')
      else Inr \<lparr>binning = b, sumw = replicate (length b - 1) 0\<rparr>)"
  by (cases b) (simp_all add: myTH1_init_def np_zeros_def)

lemma myTH1_add_same:
  assumes "binning oth = binning self"
  shows "myTH1_add self (PyTH1 oth) =
     (if binning self = [] then Inl (ValueError ''negative dimensions are not allowed'')
      else bind_err (np_add (sumw self) (sumw oth))
             (\<lambda>s. Inr \<lparr>binning = binning self, sumw = s\<rparr>))"
  using assms by (simp add: myTH1_add_def np_array_equal_iff myTH1_init_eq)






subsection \<open>The shape of a histogram that a program can build\<close>

lemma np_iadd_length: "np_iadd xs ys = Inr zs \<Longrightarrow> length zs = length xs"
  by (auto simp: np_iadd_def split: if_splits)

lemma np_add_length: "length xs = length ys \<Longrightarrow> np_add xs ys = Inr (map2 (+) xs ys)"
  by (simp add: np_add_def)

lemma map2_zeros: "length xs = n \<Longrightarrow> map2 (+) (replicate n 0) xs = (xs::real list)"
  by (induction xs arbitrary: n) auto

lemma th1_ok_iff: "th1_ok h \<longleftrightarrow> binning h \<noteq> [] \<and> length (sumw h) = length (binning h) - 1"
  by (cases "binning h") (auto simp: th1_ok_def)

lemma same_cells:
  assumes "th1_ok h1" and "th1_ok h2" and "binning h2 = binning h1"
  shows "length (sumw h1) = length (sumw h2)"
  using assms by (simp add: th1_ok_iff)

lemma myTH1_add_ok:
  assumes "th1_ok h1" and "th1_ok h2" and "binning h2 = binning h1"
  shows "myTH1_add h1 (PyTH1 h2) =
     Inr \<lparr>binning = binning h1, sumw = map2 (+) (sumw h1) (sumw h2)\<rparr>"
  using assms same_cells[OF assms] by (simp add: myTH1_add_same np_add_length th1_ok_iff)

lemma myTH1_add_Inr:
  assumes "myTH1_add h1 (PyTH1 h2) = Inr h"
  shows "binning h2 = binning h1"
  using assms by (auto simp: myTH1_add_def np_array_equal_iff split: if_splits)

lemma reachable_ok: "reachable h \<Longrightarrow> th1_ok h"
proof (induction rule: reachable.induct)
  case (init b h)
  then show ?case by (auto simp: myTH1_init_eq th1_ok_iff split: if_splits)
next
  case (fill h vals weights h')
  then show ?case
    by (auto simp: myTH1_fill_def bind_err_eq_Inr th1_ok_def dest: np_iadd_length)
next
  case (add h1 h2 h)
  from add.hyps(3) have "binning h2 = binning h1" by (rule myTH1_add_Inr)
  with add show ?case
    by (auto simp: myTH1_add_ok th1_ok_iff)
qed

text \<open>Two histograms used as concrete inputs below, with the calls that build them.\<close>

lemma reachable_empty: "reachable \<lparr>binning = [0, 1, 2], sumw = [0, 0]\<rparr>"
proof (rule reachable.init)
  show "myTH1_init [0, 1, 2] = Inr \<lparr>binning = [0, 1, 2], sumw = [0, 0]\<rparr>"
    by code_simp
qed

lemma reachable_filled: "reachable \<lparr>binning = [0, 1, 2], sumw = [1, 2]\<rparr>"
proof (rule reachable.fill[OF reachable_empty])
  show "myTH1_fill \<lparr>binning = [0, 1, 2], sumw = [0, 0]\<rparr> [0.5, 1.5, 7] (Some [1, 2, 4])
      = Inr \<lparr>binning = [0, 1, 2], sumw = [1, 2]\<rparr>"
    by code_simp
qed

text \<open>
  Claim C3. Identity law: the accumulator's identity is a freshly constructed histogram
  over the same edges, with all cells zero; adding any histogram \<open>h\<close> that a program can
  build to it returns a histogram equal to \<open>h\<close>, edges and cells, and so does adding the
  identity to \<open>h\<close>.
\<close>

theorem merge_identity:
  assumes "reachable h"
  shows "bind_err (myTH1_init (binning h)) (\<lambda>z. myTH1_add z (PyTH1 h)) = Inr h
       \<and> bind_err (myTH1_init (binning h)) (\<lambda>z. myTH1_add h (PyTH1 z)) = Inr h"
proof -
  from assms have ok: "binning h \<noteq> []" "length (sumw h) = length (binning h) - 1"
    using reachable_ok th1_ok_iff by auto
  let ?z = "\<lparr>binning = binning h, sumw = replicate (length (binning h) - 1) 0\<rparr>"
  have z: "th1_ok ?z" using ok by (simp add: th1_ok_iff)
  have h: "th1_ok h" using assms by (rule reachable_ok)
  have "myTH1_add ?z (PyTH1 h) =
      Inr \<lparr>binning = binning h, sumw = map2 (+) (sumw ?z) (sumw h)\<rparr>"
    using myTH1_add_ok[OF z h] by simp
  moreover have "myTH1_add h (PyTH1 ?z) =
      Inr \<lparr>binning = binning h, sumw = map2 (+) (sumw h) (sumw ?z)\<rparr>"
    using myTH1_add_ok[OF h z] by simp
  ultimately show ?thesis
    using ok by (simp add: myTH1_init_eq map2_zeros map2_add_comm[of "sumw h"])
qed

theorem merge_identity_witness:
  "reachable \<lparr>binning = [0, 1, 2], sumw = [1, 2]\<rparr>
   \<and> bind_err (myTH1_init [0, 1, 2])
       (\<lambda>z. myTH1_add z (PyTH1 \<lparr>binning = [0, 1, 2], sumw = [1, 2]\<rparr>))
     = Inr \<lparr>binning = [0, 1, 2], sumw = [1, 2]\<rparr>"
  using merge_identity[OF reachable_filled] reachable_filled by simp

text \<open>
  Claim C4. Merging two histograms whose edges differ, in a value or in the shape of the
  array, always fails with the error for incompatible binning, which the notebook raises
  as \<^verbatim>\<open>ValueError("The histograms have inconsistent binning")\<close>; a merge that succeeds
  has identical edges on both sides, and two histograms a program can build over
  identical edges do merge. This holds for \<^verbatim>\<open>myTH1.__add__\<close> and for \<^verbatim>\<open>add_histos\<close>.
\<close>

theorem merge_inconsistent_binning:
  "(binning h2 \<noteq> binning h1 \<longrightarrow>
      myTH1_add h1 (PyTH1 h2) = Inl (ValueError ''The histograms have inconsistent binning''))
   \<and> (myTH1_add h1 (PyTH1 h2) = Inr h \<longrightarrow> binning h2 = binning h1)
   \<and> (reachable h1 \<and> reachable h2 \<and> binning h2 = binning h1 \<longrightarrow>
      myTH1_add h1 (PyTH1 h2) =
        Inr \<lparr>binning = binning h1, sumw = map2 (+) (sumw h1) (sumw h2)\<rparr>)
   \<and> (b2 \<noteq> b1 \<longrightarrow>
      add_histos (s1, b1) (s2, b2) =
        Inl (ValueError ''The histograms have inconsistent binning''))
   \<and> (add_histos (s1, b1) (s2, b2) = Inr p \<longrightarrow> b2 = b1)"
proof (intro conjI impI)
  assume "binning h2 \<noteq> binning h1"
  then show "myTH1_add h1 (PyTH1 h2) =
      Inl (ValueError ''The histograms have inconsistent binning'')"
    by (simp add: myTH1_add_def np_array_equal_iff inconsistent_binning_def)
next
  assume "myTH1_add h1 (PyTH1 h2) = Inr h"
  then show "binning h2 = binning h1" by (rule myTH1_add_Inr)
next
  assume "reachable h1 \<and> reachable h2 \<and> binning h2 = binning h1"
  then show "myTH1_add h1 (PyTH1 h2) =
      Inr \<lparr>binning = binning h1, sumw = map2 (+) (sumw h1) (sumw h2)\<rparr>"
    by (simp add: myTH1_add_ok reachable_ok)
next
  assume "b2 \<noteq> b1"
  then have "\<not> (length b1 = length b2 \<and> np_all_eq b1 b2)"
    using np_all_eq_iff by auto
  then show "add_histos (s1, b1) (s2, b2) =
      Inl (ValueError ''The histograms have inconsistent binning'')"
    by (auto simp: add_histos_def inconsistent_binning_def)
next
  assume "add_histos (s1, b1) (s2, b2) = Inr p"
  then show "b2 = b1"
    using np_all_eq_iff by (auto simp: add_histos_def split: if_splits)
qed

theorem merge_inconsistent_binning_witness:
  "myTH1_add \<lparr>binning = [0, 1, 2], sumw = [1, 2]\<rparr> (PyTH1 \<lparr>binning = [0, 1, 3], sumw = [4, 5]\<rparr>)
     = Inl (ValueError ''The histograms have inconsistent binning'')
   \<and> myTH1_add \<lparr>binning = [0, 1, 2], sumw = [1, 2]\<rparr> (PyTH1 \<lparr>binning = [0, 1], sumw = [4]\<rparr>)
     = Inl (ValueError ''The histograms have inconsistent binning'')
   \<and> myTH1_add \<lparr>binning = [0, 1, 2], sumw = [1, 2]\<rparr> (PyTH1 \<lparr>binning = [0, 1, 2], sumw = [0, 0]\<rparr>)
     = Inr \<lparr>binning = [0, 1, 2], sumw = [1, 2]\<rparr>
   \<and> add_histos ([1, 2], [0, 1, 2]) ([4, 5], [0, 1, 3])
     = Inl (ValueError ''The histograms have inconsistent binning'')
   \<and> add_histos ([1, 2], [0, 1, 2]) ([4], [0, 1])
     = Inl (ValueError ''The histograms have inconsistent binning'')"
  using
    merge_inconsistent_binning[of "\<lparr>binning = [0, 1, 3], sumw = [4, 5]\<rparr>"
      "\<lparr>binning = [0, 1, 2], sumw = [1, 2]\<rparr>" "\<lparr>binning = [], sumw = []\<rparr>" "[0, 1, 3]" "[0, 1, 2]" "[1, 2]" "[4, 5]"]
    merge_inconsistent_binning[of "\<lparr>binning = [0, 1], sumw = [4]\<rparr>"
      "\<lparr>binning = [0, 1, 2], sumw = [1, 2]\<rparr>" "\<lparr>binning = [], sumw = []\<rparr>" "[0, 1]" "[0, 1, 2]" "[1, 2]" "[4]"]
    merge_inconsistent_binning[of "\<lparr>binning = [0, 1, 2], sumw = [0, 0]\<rparr>"
      "\<lparr>binning = [0, 1, 2], sumw = [1, 2]\<rparr>"]
    reachable_empty reachable_filled
  by simp

subsection \<open>Filling in chunks\<close>

lemma successively_sorted: "successively (\<le>) (b::real list) \<longleftrightarrow> sorted b"
  by (rule successively_conv_sorted_wrt) (simp add: transp_def)

lemma zip_fst_const: "zip (map fst evs) (replicate (length evs) c) = map (\<lambda>e. (fst e, c)) evs"
  by (induction evs) auto

lemma np_histogram_events:
  "np_histogram (map fst evs) edges (if weighted then Some (map snd evs) else None) =
     (if \<not> successively (\<le>) edges
      then Inl (ValueError ''bins must increase monotonically, when an array'')
      else Inr (map (bin_content edges (counted weighted evs)) [0..<length edges - 1]))"
  by (simp add: np_histogram_def counted_def zip_map_fst_snd zip_fst_const)




lemma fill_events_ok:
  assumes "th1_ok h" and "successively (\<le>) (binning h)"
  shows "fill_events weighted h evs =
     Inr (h\<lparr>sumw := map2 (+) (sumw h)
            (map (bin_content (binning h) (counted weighted evs)) [0..<length (binning h) - 1])\<rparr>)"
  using assms
  by (simp add: fill_events_def myTH1_fill_def np_histogram_events np_iadd_def th1_ok_iff)


lemma fresh_fill_fill_new:
  "fresh_fill weighted b evs =
     fill_new b (map fst evs) (if weighted then Some (map snd evs) else None)"
  by (simp add: fresh_fill_def fill_new_def fill_events_def)






subsection \<open>The order of the events\<close>








subsection \<open>The bin of a value\<close>

lemma bin_content_single:
  "bin_content edges [(v, x)] j = (if in_bin edges j v then x else 0)"
  by (simp add: bin_content_def)

lemma in_bin_unique:
  assumes "sorted edges" and "Suc i < length edges" and "edges ! i \<le> v" and "v < edges ! Suc i"
    and "j < length edges - 1"
  shows "in_bin edges j v \<longleftrightarrow> j = i"
proof (cases j i rule: linorder_cases)
  case less
  then have "edges ! Suc j \<le> edges ! i"
    using assms(1,2) by (simp add: sorted_nth_mono)
  with assms(3) less assms(2) show ?thesis
    by (auto simp: in_bin_def)
next
  case equal
  with assms show ?thesis by (simp add: in_bin_def)
next
  case greater
  then have "edges ! Suc i \<le> edges ! j"
    using assms(1,5) by (simp add: sorted_nth_mono)
  with assms(4) greater show ?thesis
    by (auto simp: in_bin_def)
qed

lemma in_bin_last:
  assumes "sorted edges" and "2 \<le> length edges" and "j < length edges - 1"
  shows "in_bin edges j (last edges) \<longleftrightarrow> j = length edges - 2"
proof (cases "Suc (Suc j) = length edges")
  case True
  then have "edges \<noteq> []" and "length edges - 1 = Suc j"
    by auto
  then have "last edges = edges ! Suc j"
    by (simp add: last_conv_nth)
  moreover have "edges ! j \<le> edges ! Suc j"
    using assms(1) True by (simp add: sorted_nth_mono)
  ultimately show ?thesis
    using True by (auto simp: in_bin_def)
next
  case False
  have "edges ! Suc j \<le> edges ! (length edges - 1)"
    using assms by (simp add: sorted_nth_mono)
  moreover have "edges \<noteq> []"
    using assms(2) by auto
  ultimately have "edges ! Suc j \<le> last edges"
    by (simp add: last_conv_nth)
  with False assms(2,3) show ?thesis
    by (auto simp: in_bin_def)
qed

lemma in_bin_outside:
  assumes "sorted edges" and "j < length edges - 1" and "v < hd edges \<or> last edges < v"
  shows "\<not> in_bin edges j v"
proof -
  from assms(2) have ne: "edges \<noteq> []" by auto
  have "hd edges \<le> edges ! j"
    using assms(1,2) ne by (simp add: hd_conv_nth sorted_nth_mono)
  moreover have "edges ! Suc j \<le> last edges"
    using assms(1,2) ne by (simp add: last_conv_nth sorted_nth_mono)
  ultimately show ?thesis
    using assms(3) by (auto simp: in_bin_def)
qed

lemma map2_add_unit:
  assumes "length s = n" and "i < n"
  shows "map2 (+) s (map (\<lambda>j. if j = i then c else 0) [0..<n]) = s[i := s ! i + (c::real)]"
  using assms by (auto intro!: nth_equalityI simp: nth_list_update)

lemma map2_add_zero:
  assumes "length s = n"
  shows "map2 (+) s (map (\<lambda>j. 0) [0..<n]) = (s::real list)"
  using assms by (auto intro!: nth_equalityI)

lemma fill_events_single:
  assumes "th1_ok h" and "sorted (binning h)"
  shows "fill_events weighted h [(v, w)] =
    Inr (h\<lparr>sumw := map2 (+) (sumw h)
       (map (\<lambda>j. if in_bin (binning h) j v then (if weighted then w else 1) else 0)
          [0..<length (binning h) - 1])\<rparr>)"
proof -
  have "bin_content (binning h) (counted weighted [(v, w)]) =
      (\<lambda>j. if in_bin (binning h) j v then (if weighted then w else 1) else 0)"
    by (rule ext) (simp add: counted_def bin_content_single)
  then show ?thesis
    using assms by (simp add: fill_events_ok successively_sorted)
qed

lemma fill_events_bin:
  assumes "th1_ok h" and "sorted (binning h)"
    and "i < length (binning h) - 1"
    and "\<And>j. j < length (binning h) - 1 \<Longrightarrow> in_bin (binning h) j v \<longleftrightarrow> j = i"
  shows "fill_events weighted h [(v, w)] =
     Inr (h\<lparr>sumw := (sumw h)[i := sumw h ! i + (if weighted then w else 1)]\<rparr>)"
proof -
  define c where "c = (if weighted then w else 1)"
  have len: "length (sumw h) = length (binning h) - 1"
    using assms(1) by (simp add: th1_ok_iff)
  have "map (\<lambda>j. if in_bin (binning h) j v then c else 0) [0..<length (binning h) - 1] =
      map (\<lambda>j. if j = i then c else 0) [0..<length (binning h) - 1]"
    by (rule map_cong) (simp_all add: assms(4))
  then have "map2 (+) (sumw h)
       (map (\<lambda>j. if in_bin (binning h) j v then c else 0) [0..<length (binning h) - 1]) =
      (sumw h)[i := sumw h ! i + c]"
    by (simp only: map2_add_unit[OF len assms(3)])
  then show ?thesis
    unfolding c_def by (simp only: fill_events_single[OF assms(1,2)])
qed

lemma fill_events_dropped:
  assumes "th1_ok h" and "sorted (binning h)"
    and "\<And>j. j < length (binning h) - 1 \<Longrightarrow> \<not> in_bin (binning h) j v"
  shows "fill_events weighted h [(v, w)] = Inr h"
proof -
  define c where "c = (if weighted then w else 1)"
  have len: "length (sumw h) = length (binning h) - 1"
    using assms(1) by (simp add: th1_ok_iff)
  have "map (\<lambda>j. if in_bin (binning h) j v then c else 0) [0..<length (binning h) - 1] =
      map (\<lambda>j. 0) [0..<length (binning h) - 1]"
    by (rule map_cong) (simp_all add: assms(3))
  then have "map2 (+) (sumw h)
       (map (\<lambda>j. if in_bin (binning h) j v then c else 0) [0..<length (binning h) - 1]) =
      sumw h"
    by (simp only: map2_add_zero[OF len])
  then show ?thesis
    unfolding c_def by (simp add: fill_events_single[OF assms(1,2)])
qed

text \<open>
  Claim C5, as the code has it. On the edges \<open>[0, 1, 2, 3]\<close>, filling the values
  \<open>[-1, 0.5, 1.5, 1.5, 3.5]\<close> with weight 1 each gives exactly three cells, 1 in
  \<open>[0, 1)\<close>, 2 in \<open>[1, 2)\<close> and 0 in \<open>[2, 3]\<close>: there is no underflow or overflow cell,
  and the two values outside the range of the edges are dropped. In general, over
  non-decreasing edges, a value \<open>v\<close> with \<open>edge[i] \<le> v < edge[i+1]\<close> adds its weight to
  cell \<open>i\<close> and to no other cell, a value equal to the last edge adds its weight to the
  last cell, and a value below the first edge or above the last edge changes no cell.
\<close>

theorem fill_assigns_bin:
  assumes "reachable h" and "sorted (binning h)"
  shows "(Suc i < length (binning h) \<and> binning h ! i \<le> v \<and> v < binning h ! Suc i \<longrightarrow>
            fill_events weighted h [(v, w)] =
              Inr (h\<lparr>sumw := (sumw h)[i := sumw h ! i + (if weighted then w else 1)]\<rparr>))
       \<and> (2 \<le> length (binning h) \<and> v = last (binning h) \<longrightarrow>
            fill_events weighted h [(v, w)] =
              Inr (h\<lparr>sumw := (sumw h)[length (binning h) - 2 :=
                      sumw h ! (length (binning h) - 2) + (if weighted then w else 1)]\<rparr>))
       \<and> (v < hd (binning h) \<or> last (binning h) < v \<longrightarrow>
            fill_events weighted h [(v, w)] = Inr h)
       \<and> fill_new [0, 1, 2, 3] [-1, 0.5, 1.5, 1.5, 3.5] None =
            Inr \<lparr>binning = [0, 1, 2, 3], sumw = [1, 2, 0]\<rparr>"
proof (intro conjI impI)
  from assms(1) have ok: "th1_ok h" by (rule reachable_ok)
  {
    assume a: "Suc i < length (binning h) \<and> binning h ! i \<le> v \<and> v < binning h ! Suc i"
    then have "i < length (binning h) - 1" by linarith
    then show "fill_events weighted h [(v, w)] =
        Inr (h\<lparr>sumw := (sumw h)[i := sumw h ! i + (if weighted then w else 1)]\<rparr>)"
      using a in_bin_unique[OF assms(2), of i v]
      by (intro fill_events_bin[OF ok assms(2)]) auto
  }
  {
    assume a: "2 \<le> length (binning h) \<and> v = last (binning h)"
    then have "length (binning h) - 2 < length (binning h) - 1" by linarith
    then show "fill_events weighted h [(v, w)] =
        Inr (h\<lparr>sumw := (sumw h)[length (binning h) - 2 :=
                      sumw h ! (length (binning h) - 2) + (if weighted then w else 1)]\<rparr>)"
      using a in_bin_last[OF assms(2)]
      by (intro fill_events_bin[OF ok assms(2)]) auto
  }
  {
    assume a: "v < hd (binning h) \<or> last (binning h) < v"
    show "fill_events weighted h [(v, w)] = Inr h"
      using a in_bin_outside[OF assms(2)]
      by (intro fill_events_dropped[OF ok assms(2)]) auto
  }
  show "fill_new [0, 1, 2, 3] [-1, 0.5, 1.5, 1.5, 3.5] None =
            Inr \<lparr>binning = [0, 1, 2, 3], sumw = [1, 2, 0]\<rparr>"
    by code_simp
qed

theorem fill_assigns_bin_witness:
  "reachable \<lparr>binning = [0, 1, 2], sumw = [1, 2]\<rparr> \<and> sorted [0, 1, 2 :: real]
   \<and> fill_events True \<lparr>binning = [0, 1, 2], sumw = [1, 2]\<rparr> [(1.5, 4)]
     = Inr \<lparr>binning = [0, 1, 2], sumw = [1, 6]\<rparr>
   \<and> fill_events False \<lparr>binning = [0, 1, 2], sumw = [1, 2]\<rparr> [(2, 4)]
     = Inr \<lparr>binning = [0, 1, 2], sumw = [1, 3]\<rparr>
   \<and> fill_events True \<lparr>binning = [0, 1, 2], sumw = [1, 2]\<rparr> [(7, 4)]
     = Inr \<lparr>binning = [0, 1, 2], sumw = [1, 2]\<rparr>"
proof -
  have s: "sorted (binning \<lparr>binning = [0, 1, 2], sumw = [1, 2]\<rparr>)"
    by simp
  from fill_assigns_bin[OF reachable_filled s, of 1 "1.5" True 4]
    fill_assigns_bin[OF reachable_filled s, of 0 2 False 4]
    fill_assigns_bin[OF reachable_filled s, of 0 7 True 4]
    reachable_filled
  show ?thesis by simp
qed

text \<open>
  Claim C5, as stated, fails on the scenario itself: the histogram has the three
  cells \<open>[1, 2, 0]\<close> and not the five cells with an underflow and an overflow count of 1,
  so two of the five events are lost; and the value 3, which no bin \<open>i\<close> with
  \<open>edge[i] \<le> v < edge[i+1]\<close> holds, is counted in the last bin.
\<close>

theorem fill_scenario_counterexample:
  "fill_new [0, 1, 2, 3] [-1, 0.5, 1.5, 1.5, 3.5] None
     = Inr \<lparr>binning = [0, 1, 2, 3], sumw = [1, 2, 0]\<rparr>
   \<and> fill_new [0, 1, 2, 3] [-1, 0.5, 1.5, 1.5, 3.5] None
     \<noteq> Inr \<lparr>binning = [0, 1, 2, 3], sumw = [1, 1, 2, 0, 1]\<rparr>
   \<and> fill_new [0, 1, 2, 3] [3] None = Inr \<lparr>binning = [0, 1, 2, 3], sumw = [0, 0, 1]\<rparr>"
  by code_simp

subsection \<open>Merging in the store\<close>

lemma lookup_append: "lookup H r = Some x \<Longrightarrow> lookup (H @ ys) r = Some x"
  by (auto simp: lookup_def nth_append split: if_splits)

lemma lookup_fresh: "lookup (H @ x # ys) (length H) = Some x"
  by (simp add: lookup_def)

lemma array_at_append: "array_at H r = Inr xs \<Longrightarrow> array_at (H @ ys) r = Inr xs"
  by (auto simp: array_at_def lookup_def nth_append split: if_splits option.splits obj.splits)

lemma array_at_Inr: "array_at H r = Inr xs \<longleftrightarrow> r < length H \<and> H ! r = NdArray xs"
  by (auto simp: array_at_def lookup_def split: obj.splits)

lemma lookup_Some: "lookup H r = Some x \<longleftrightarrow> r < length H \<and> H ! r = x"
  by (auto simp: lookup_def)

lemma th1_at_Some:
  "th1_at H r = Some h \<longleftrightarrow>
     (\<exists>b s. lookup H r = Some (MyTH1 b s) \<and> array_at H b = Inr (binning h)
        \<and> array_at H s = Inr (sumw h))"
  by (cases h) (auto simp: th1_at_def split: option.splits obj.splits sum.splits)

lemma th1_at_append: "th1_at H r = Some h \<Longrightarrow> th1_at (H @ ys) r = Some h"
  unfolding th1_at_Some by (auto intro: lookup_append array_at_append)

lemma new_myTH1_eq:
  assumes "array_at H b = Inr edges"
  shows "new_myTH1 H b =
     (if edges = [] then Inl (ValueError ''negative dimensions are not allowed'')
      else Inr (H @ [NdArray (replicate (length edges - 1) 0), MyTH1 b (length H)],
                Suc (length H)))"
  using assms by (cases edges) (simp_all add: new_myTH1_def np_zeros_def alloc_def)

lemma add_store_eq:
  assumes "lookup H self = Some (MyTH1 sb ss)" and "lookup H other = Some (MyTH1 ob os)"
    and "array_at H sb = Inr e1" and "array_at H ss = Inr c1"
    and "array_at H ob = Inr e2" and "array_at H os = Inr c2"
  shows "add_store H self other =
     (if e2 \<noteq> e1 then Inl inconsistent_binning
      else if e1 = [] then Inl (ValueError ''negative dimensions are not allowed'')
      else bind_err (np_add c1 c2) (\<lambda>s.
        Inr (H @ [NdArray (replicate (length e1 - 1) 0), MyTH1 sb (length H + 2), NdArray s],
             Suc (length H))))"
proof -
  let ?H1 = "H @ [NdArray (replicate (length e1 - 1) 0), MyTH1 sb (length H)]"
  have a: "array_at ?H1 ss = Inr c1" "array_at ?H1 os = Inr c2"
    using assms by (simp_all add: array_at_append)
  have s: "set_sumw (?H1 @ [NdArray s]) (Suc (length H)) r =
      Inr (H @ [NdArray (replicate (length e1 - 1) 0), MyTH1 sb r, NdArray s])" for s r
    by (simp add: set_sumw_def lookup_def nth_append list_update_append)
  show ?thesis
    using assms(1,2,3,5)
    by (simp add: add_store_def np_array_equal_iff new_myTH1_eq[OF assms(3)] a[simplified]
        alloc_def s[simplified])
qed

lemma add_store_refines:
  assumes "th1_at H self = Some hs" and "th1_at H other = Some ho"
  shows "(case myTH1_add hs (PyTH1 ho) of
            Inl e \<Rightarrow> add_store H self other = Inl e
          | Inr h \<Rightarrow> (\<exists>b z. lookup H self = Some (MyTH1 b z) \<and> 
                add_store H self other =
                Inr (H @ [NdArray (replicate (length (binning hs) - 1) 0),
                          MyTH1 b (length H + 2), NdArray (sumw h)], Suc (length H))))"
proof -
  from assms obtain sb ss ob os where
    l: "lookup H self = Some (MyTH1 sb ss)" "lookup H other = Some (MyTH1 ob os)" and
    a: "array_at H sb = Inr (binning hs)" "array_at H ss = Inr (sumw hs)"
       "array_at H ob = Inr (binning ho)" "array_at H os = Inr (sumw ho)"
    unfolding th1_at_Some by blast
  show ?thesis
    unfolding add_store_eq[OF l a]
    by (cases "np_add (sumw hs) (sumw ho)")
       (auto simp: myTH1_add_def np_array_equal_iff myTH1_init_eq l)
qed

text \<open>\<^verbatim>\<open>fill\<close> works in place: it overwrites the cell array of \<^verbatim>\<open>self\<close> and nothing else.\<close>

lemma fill_store_in_place:
  assumes "fill_store H self vals weights = Inr H'"
  shows "length H' = length H
    \<and> (\<exists>b s. lookup H self = Some (MyTH1 b s) \<and> (\<forall>r. r \<noteq> s \<longrightarrow> lookup H' r = lookup H r))"
  using assms
  by (auto simp: fill_store_def bind_err_eq_Inr lookup_def
      split: option.splits obj.splits if_splits)

text \<open>
  Claim C10. Merge does not mutate its operands. For two histograms in the store that a
  program can build over identical edges, \<^verbatim>\<open>__add__\<close> returns a reference \<open>out\<close> that
  did not exist before, to a histogram whose cell array is newly allocated as well and
  holds the cell-wise sum; every object of the store before the call is unchanged after
  it, so both operands still have their edges and their cells. (The new histogram shares
  the binning array of \<^verbatim>\<open>self\<close>.)
\<close>

theorem add_does_not_mutate:
  assumes "th1_at H self = Some hs" and "th1_at H other = Some ho"
    and "reachable hs" and "reachable ho" and "binning ho = binning hs"
  shows "\<exists>H' out b r z. add_store H self other = Inr (H', out)
      \<and> take (length H) H' = H
      \<and> th1_at H' self = Some hs \<and> th1_at H' other = Some ho
      \<and> length H \<le> out \<and> lookup H' out = Some (MyTH1 b r) \<and> length H \<le> r
      \<and> lookup H self = Some (MyTH1 b z)
      \<and> th1_at H' out = Some \<lparr>binning = binning hs, sumw = map2 (+) (sumw hs) (sumw ho)\<rparr>"
proof -
  let ?h = "\<lparr>binning = binning hs, sumw = map2 (+) (sumw hs) (sumw ho)\<rparr>"
  have "myTH1_add hs (PyTH1 ho) = Inr ?h"
    using assms(3-5) by (simp add: myTH1_add_ok reachable_ok)
  with add_store_refines[OF assms(1,2)] obtain b z where
    l: "lookup H self = Some (MyTH1 b z)" and
    r: "add_store H self other =
          Inr (H @ [NdArray (replicate (length (binning hs) - 1) 0),
                    MyTH1 b (length H + 2), NdArray (sumw ?h)], Suc (length H))"
    by auto
  let ?H' = "H @ [NdArray (replicate (length (binning hs) - 1) 0),
                    MyTH1 b (length H + 2), NdArray (sumw ?h)]"
  from assms(1) l have b: "array_at H b = Inr (binning hs)"
    unfolding th1_at_Some by auto
  have o: "lookup ?H' (Suc (length H)) = Some (MyTH1 b (length H + 2))"
    by (simp add: lookup_def nth_append)
  have c: "array_at ?H' (length H + 2) = Inr (sumw ?h)"
    by (simp add: array_at_def lookup_def nth_append)
  have "th1_at ?H' (Suc (length H)) = Some ?h"
    unfolding th1_at_Some using o c array_at_append[OF b] by auto
  moreover have "th1_at ?H' self = Some hs" "th1_at ?H' other = Some ho"
    using assms(1,2) by (simp_all add: th1_at_append)
  ultimately show ?thesis
    using r l o by (intro exI[of _ ?H'] exI[of _ "Suc (length H)"] exI[of _ b]
        exI[of _ "length H + 2"] exI[of _ z]) simp
qed

theorem add_does_not_mutate_witness:
  "th1_at [NdArray [0, 1, 2], NdArray [1, 2], MyTH1 0 1, NdArray [1, 2], MyTH1 0 3] 2
     = Some \<lparr>binning = [0, 1, 2], sumw = [1, 2]\<rparr>
   \<and> th1_at [NdArray [0, 1, 2], NdArray [1, 2], MyTH1 0 1, NdArray [1, 2], MyTH1 0 3] 4
     = Some \<lparr>binning = [0, 1, 2], sumw = [1, 2]\<rparr>
   \<and> reachable \<lparr>binning = [0, 1, 2], sumw = [1, 2]\<rparr>
   \<and> add_store [NdArray [0, 1, 2], NdArray [1, 2], MyTH1 0 1, NdArray [1, 2], MyTH1 0 3] 2 4
     = Inr ([NdArray [0, 1, 2], NdArray [1, 2], MyTH1 0 1, NdArray [1, 2], MyTH1 0 3,
             NdArray [0, 0], MyTH1 0 7, NdArray [2, 4]], 6)
   \<and> (\<exists>H' out. add_store [NdArray [0, 1, 2], NdArray [1, 2], MyTH1 0 1, NdArray [1, 2],
                    MyTH1 0 3] 2 4 = Inr (H', out)
        \<and> th1_at H' 2 = Some \<lparr>binning = [0, 1, 2], sumw = [1, 2]\<rparr>
        \<and> th1_at H' 4 = Some \<lparr>binning = [0, 1, 2], sumw = [1, 2]\<rparr>
        \<and> th1_at H' out = Some \<lparr>binning = [0, 1, 2], sumw = [2, 4]\<rparr>)"
proof -
  let ?H = "[NdArray [0, 1, 2], NdArray [1, 2], MyTH1 0 1, NdArray [1, 2], MyTH1 0 3]"
  let ?h = "\<lparr>binning = [0, 1, 2], sumw = [1, 2]\<rparr>"
  have a: "th1_at ?H 2 = Some ?h" by code_simp
  have b: "th1_at ?H 4 = Some ?h" by code_simp
  have c: "add_store ?H 2 4 =
      Inr ([NdArray [0, 1, 2], NdArray [1, 2], MyTH1 0 1, NdArray [1, 2], MyTH1 0 3,
            NdArray [0, 0], MyTH1 0 7, NdArray [2, 4]], 6)"
    by code_simp
  from add_does_not_mutate[OF a b reachable_filled reachable_filled refl]
  have "\<exists>H' out. add_store ?H 2 4 = Inr (H', out)
        \<and> th1_at H' 2 = Some ?h \<and> th1_at H' 4 = Some ?h
        \<and> th1_at H' out = Some \<lparr>binning = [0, 1, 2], sumw = [2, 4]\<rparr>"
    by simp blast
  with a b c reachable_filled show ?thesis by blast
qed

section \<open>Properties of the accumulator design\<close>

subsection \<open>Shapes\<close>

lemma label_index_None: "label_index ls l = None \<longleftrightarrow> l \<notin> set ls"
  by (induction ls) auto

lemma label_index_Some: "label_index ls l = Some i \<Longrightarrow> i < length ls"
  by (induction ls arbitrary: i) (auto split: if_splits)

lemma cat_fill_shape:
  assumes "length (cells h) = length (labels h)" and "cat_fill h l w = Inr h'"
  shows "length (cells h') = length (labels h')"
  using assms
  by (auto simp: cat_fill_def bin_index_def split: option.splits if_splits)

lemma cat_fill_all_shape:
  assumes "length (cells h) = length (labels h)" and "cat_fill_all h evs = Inr h'"
  shows "length (cells h') = length (labels h')"
  using assms
proof (induction evs arbitrary: h)
  case Nil
  then show ?case by simp
next
  case (Cons ev evs)
  obtain l w where ev: "ev = (l, w)" by (cases ev)
  with Cons.prems(2) obtain h1 where h1: "cat_fill h l w = Inr h1" "cat_fill_all h1 evs = Inr h'"
    by (auto split: sum.splits)
  from cat_fill_shape[OF Cons.prems(1) h1(1)] Cons.IH h1(2) show ?case by blast
qed

lemma update_last: "length xs = n \<Longrightarrow> (xs @ [a])[n := b] = xs @ [b]"
  by (induction xs arbitrary: n) auto

lemma cat_fill_new_label:
  assumes "length (cells h) = length (labels h)" and "growable h" and "l \<notin> set (labels h)"
  shows "cat_fill h l w = Inr (h\<lparr>labels := labels h @ [l], cells := cells h @ [w]\<rparr>)"
proof -
  have "(cells h @ [0])[length (labels h) := w] = cells h @ [w]"
    using assms(1) by (simp add: update_last)
  with assms show ?thesis
    by (simp add: cat_fill_def bin_index_def label_index_None[THEN iffD2] nth_append)
qed

text \<open>
  Claim C8. Shape invariant. For the histogram of the notebook: after any sequence of
  constructor, \<^verbatim>\<open>fill\<close> and merge operations, a histogram over \<open>B + 1\<close> edges has exactly
  \<open>B\<close> cells (in particular it has at least one edge). For the histogram over a growable
  categorical axis of the design: after any sequence of fills of a fresh histogram there
  is one cell per label, and a fill with a new label appends the label and its cell, the
  cells that were there keeping their place.
\<close>

theorem shape_invariant:
  "(reachable h \<longrightarrow> int (length (sumw h)) = int (length (binning h)) - 1)
   \<and> (cat_fill_all (cat_identity g) evs = Inr c \<longrightarrow> length (cells c) = length (labels c))
   \<and> (length (cells c0) = length (labels c0) \<and> growable c0 \<and> l \<notin> set (labels c0) \<longrightarrow>
        cat_fill c0 l w = Inr (c0\<lparr>labels := labels c0 @ [l], cells := cells c0 @ [w]\<rparr>))"
proof (intro conjI impI)
  assume "reachable h"
  then have "th1_ok h" by (rule reachable_ok)
  then show "int (length (sumw h)) = int (length (binning h)) - 1"
    by (simp add: th1_ok_def)
next
  assume "cat_fill_all (cat_identity g) evs = Inr c"
  then show "length (cells c) = length (labels c)"
    by (rule cat_fill_all_shape[rotated]) (simp add: cat_identity_def)
next
  assume "length (cells c0) = length (labels c0) \<and> growable c0 \<and> l \<notin> set (labels c0)"
  then show "cat_fill c0 l w = Inr (c0\<lparr>labels := labels c0 @ [l], cells := cells c0 @ [w]\<rparr>)"
    by (simp add: cat_fill_new_label)
qed

theorem shape_invariant_witness:
  "reachable \<lparr>binning = [0, 1, 2], sumw = [1, 2]\<rparr>
   \<and> int (length [1, 2 :: real]) = int (length [0, 1, 2 :: real]) - 1
   \<and> cat_fill_all (cat_identity True) [(''A'', 1), (''B'', 1)]
       = Inr \<lparr>labels = [''A'', ''B''], growable = True, cells = [1, 1]\<rparr>
   \<and> length [1, 1 :: real] = length [''A'', ''B'']
   \<and> cat_fill \<lparr>labels = [''A''], growable = True, cells = [3]\<rparr> ''B'' 1
       = Inr \<lparr>labels = [''A'', ''B''], growable = True, cells = [3, 1]\<rparr>"
proof -
  have f: "cat_fill_all (cat_identity True) [(''A'', 1), (''B'', 1)]
       = Inr \<lparr>labels = [''A'', ''B''], growable = True, cells = [1, 1]\<rparr>"
    by code_simp
  from shape_invariant[of "\<lparr>binning = [0, 1, 2], sumw = [1, 2]\<rparr>" True
      "[(''A'', 1), (''B'', 1)]" "\<lparr>labels = [''A'', ''B''], growable = True, cells = [1, 1]\<rparr>"
      "\<lparr>labels = [''A''], growable = True, cells = [3]\<rparr>" "''B''" 1]
    f reachable_filled
  show ?thesis by simp
qed

subsection \<open>Growth of a categorical axis\<close>

lemma cat_fill_labels:
  assumes "growable h"
  shows "\<exists>h'. cat_fill h l w = Inr h' \<and> growable h'
    \<and> labels h' = (if l \<in> set (labels h) then labels h else labels h @ [l])"
proof (cases "label_index (labels h) l")
  case None
  with assms show ?thesis
    using label_index_None[of "labels h" l] by (simp add: cat_fill_def bin_index_def)
next
  case (Some i)
  then have "l \<in> set (labels h)"
    using label_index_None[of "labels h" l] by auto
  with Some assms show ?thesis
    by (simp add: cat_fill_def bin_index_def)
qed

text \<open>
  Claim C7. Categorical axis growth: filling a fresh histogram over a growable categorical
  axis with the labels A, B, A, weight 1 each, creates the bin of A on the first fill and
  the bin of B on the second, the third fill adds to the bin of A; afterwards
  \<^verbatim>\<open>identifiers()\<close> returns A, B in first-seen order and the counts are A = 2, B = 1.
  In general a fill on a growable axis succeeds, and appends its label to the identifiers
  exactly when the label is new.
\<close>

theorem categorical_growth:
  "cat_fill (cat_identity True) ''A'' 1 = Inr \<lparr>labels = [''A''], growable = True, cells = [1]\<rparr>
   \<and> cat_fill \<lparr>labels = [''A''], growable = True, cells = [1]\<rparr> ''B'' 1
       = Inr \<lparr>labels = [''A'', ''B''], growable = True, cells = [1, 1]\<rparr>
   \<and> cat_fill \<lparr>labels = [''A'', ''B''], growable = True, cells = [1, 1]\<rparr> ''A'' 1
       = Inr \<lparr>labels = [''A'', ''B''], growable = True, cells = [2, 1]\<rparr>
   \<and> cat_fill_all (cat_identity True) [(''A'', 1), (''B'', 1), (''A'', 1)]
       = Inr \<lparr>labels = [''A'', ''B''], growable = True, cells = [2, 1]\<rparr>
   \<and> identifiers \<lparr>labels = [''A'', ''B''], growable = True, cells = [2, 1]\<rparr> = [''A'', ''B'']
   \<and> cat_values \<lparr>labels = [''A'', ''B''], growable = True, cells = [2, 1]\<rparr>
       = [(''A'', 2), (''B'', 1)]
   \<and> (growable h \<longrightarrow>
        (\<exists>h'. cat_fill h l w = Inr h'
           \<and> identifiers h' =
               (if l \<in> set (identifiers h) then identifiers h else identifiers h @ [l])))"
proof -
  have "cat_fill (cat_identity True) ''A'' 1 = Inr \<lparr>labels = [''A''], growable = True, cells = [1]\<rparr>
   \<and> cat_fill \<lparr>labels = [''A''], growable = True, cells = [1]\<rparr> ''B'' 1
       = Inr \<lparr>labels = [''A'', ''B''], growable = True, cells = [1, 1]\<rparr>
   \<and> cat_fill \<lparr>labels = [''A'', ''B''], growable = True, cells = [1, 1]\<rparr> ''A'' 1
       = Inr \<lparr>labels = [''A'', ''B''], growable = True, cells = [2, 1]\<rparr>
   \<and> cat_fill_all (cat_identity True) [(''A'', 1), (''B'', 1), (''A'', 1)]
       = Inr \<lparr>labels = [''A'', ''B''], growable = True, cells = [2, 1]\<rparr>
   \<and> identifiers \<lparr>labels = [''A'', ''B''], growable = True, cells = [2, 1]\<rparr> = [''A'', ''B'']
   \<and> cat_values \<lparr>labels = [''A'', ''B''], growable = True, cells = [2, 1]\<rparr>
       = [(''A'', 2), (''B'', 1)]"
    by code_simp
  moreover have "growable h \<longrightarrow>
        (\<exists>h'. cat_fill h l w = Inr h'
           \<and> identifiers h' =
               (if l \<in> set (identifiers h) then identifiers h else identifiers h @ [l]))"
    using cat_fill_labels[of h l w] by (auto simp: identifiers_def)
  ultimately show ?thesis by blast
qed

theorem categorical_growth_witness:
  "\<exists>h'. cat_fill \<lparr>labels = [''A''], growable = True, cells = [1]\<rparr> ''B'' 1 = Inr h'
      \<and> identifiers h' = [''A'', ''B'']"
  using categorical_growth[of "\<lparr>labels = [''A''], growable = True, cells = [1]\<rparr>" "''B''" 1]
  by (simp add: identifiers_def)

subsection \<open>A task that fails\<close>

lemma reduce_tasks_best_effort:
  "reduce_tasks False merge i acc fs ts =
     Inr (foldl merge acc (task_outputs ts), fs @ task_failures i ts)"
  by (induction ts arbitrary: i acc fs) (auto split: sum.splits)

text \<open>
  Claim C9. Failure isolation in best-effort mode (fail-fast = false): with three tasks of
  which the second raises, the run returns the merged output of the first and the third
  task with exactly one recorded failure, that of task 2. In general a best-effort run
  always returns: the merge of the outputs of the tasks that return, and one failure per
  task that raises; a task that raises leaves the accumulator merged so far as it is.
\<close>

theorem best_effort_isolation:
  "(func t1 (chunk t1) = Inr a1 \<and> func t2 (chunk t2) = Inl e \<and> func t3 (chunk t3) = Inr a3 \<longrightarrow>
      run_executor False idn merge [t1, t2, t3] =
        Inr (merge (merge idn a1) a3, [TaskFailure 2 e]))
   \<and> run_executor False idn merge ts =
        Inr (foldl merge idn (task_outputs ts), task_failures 1 ts)
   \<and> (func t (chunk t) = Inl e \<longrightarrow>
        reduce_tasks False merge i acc fs (t # ts) =
        reduce_tasks False merge (Suc i) acc (fs @ [TaskFailure i e]) ts)"
  by (auto simp: run_executor_def reduce_tasks_best_effort numeral_2_eq_2)

theorem best_effort_isolation_witness:
  "run_executor False (0 :: nat) (+)
     [\<lparr>chunk = 1 :: nat, func = (\<lambda>c. if c = 2 then Inl ''boom'' else Inr (10 * c))\<rparr>,
      \<lparr>chunk = 2, func = (\<lambda>c. if c = 2 then Inl ''boom'' else Inr (10 * c))\<rparr>,
      \<lparr>chunk = 3, func = (\<lambda>c. if c = 2 then Inl ''boom'' else Inr (10 * c))\<rparr>]
   = Inr (40, [TaskFailure 2 ''boom''])"
  using best_effort_isolation[of
      "\<lparr>chunk = 1 :: nat, func = (\<lambda>c. if c = 2 then Inl ''boom'' else Inr (10 * c))\<rparr>" 10
      "\<lparr>chunk = 2 :: nat, func = (\<lambda>c. if c = 2 then Inl ''boom'' else Inr (10 * c))\<rparr>" "''boom''"
      "\<lparr>chunk = 3 :: nat, func = (\<lambda>c. if c = 2 then Inl ''boom'' else Inr (10 * c))\<rparr>" 30
      "0 :: nat" "(+)", THEN conjunct1]
  by simp

end
